theory Spec2Isabelle
  imports Complex_Main "HOL-Library.Word" "HOL-Library.Signed_Division"
begin

unbundle bit_operations_syntax

section \<open>The stream decoder: packet queue and decode state machine\<close>

text \<open>
  The first source file (\<^verbatim>\<open>video_decoder::impl\<close>, the variant with a packet queue).
  Values that come from libavcodec are records of the fields the code reads; the library's
  two entry points are parameters of the model (\<open>libavcodec\<close>), since their behaviour is
  not part of this repository.
\<close>

subsection \<open>Data\<close>

text \<open>\<^verbatim>\<open>AVPacket\<close>: \<open>data = None\<close> is the null payload pointer (the end-of-stream
  marker); \<open>pts\<close> is an \<^verbatim>\<open>int64_t\<close>.\<close>

record AVPacket =
  stream_index :: int
  data :: "8 word list option"
  pts :: "64 word"

text \<open>\<^verbatim>\<open>AVFrame\<close>: the fields \<^verbatim>\<open>decode\<close> reads or writes.\<close>

record AVFrame =
  interlaced_frame :: int
  top_field_first :: int
  repeat_pict :: int
  frame_pts :: "64 word"

text \<open>\<^verbatim>\<open>AVCodecContext\<close>: \<^verbatim>\<open>codec->capabilities\<close>, \<^verbatim>\<open>codec->long_name\<close> and
  the codec's own buffered state, which the model leaves abstract.\<close>

record 'c AVCodecContext =
  capabilities :: "32 word"
  long_name :: string
  priv_data :: 'c

text \<open>The two library calls. \<open>avcodec_decode_video2 ctx pkt\<close> gives the return code,
  \<^verbatim>\<open>frame_finished\<close>, the picture written and the context afterwards.\<close>

record 'c libavcodec =
  avcodec_decode_video2 ::
    "'c AVCodecContext \<Rightarrow> AVPacket \<Rightarrow> int \<times> int \<times> AVFrame \<times> 'c AVCodecContext"
  avcodec_flush_buffers :: "'c AVCodecContext \<Rightarrow> 'c AVCodecContext"

text \<open>libavcodec's capability bit \<^verbatim>\<open>CODEC_CAP_DELAY\<close> (0x0020).\<close>

definition CODEC_CAP_DELAY :: "32 word" where
  "CODEC_CAP_DELAY = 0x0020"

text \<open>What \<^verbatim>\<open>poll\<close> hands back: a null pointer, one of the two sentinel frames of
  \<^verbatim>\<open>util.h\<close>, or a decoded picture.\<close>

datatype frame_ptr = nullptr | flush_video | empty_video | video AVFrame

text \<open>The exception of \<^verbatim>\<open>THROW_ON_ERROR2\<close>, carrying the negative return code, and the
  dereference of a null codec context (undefined behaviour in the source; \<^verbatim>\<open>poll\<close>
  never reaches it).\<close>

datatype ffmpeg_error = averror int | null_codec_context

datatype event_value = int_value int | text_value string

text \<open>The members of \<^verbatim>\<open>video_decoder::impl\<close>. \<open>event_subject_'\<close> is the list of monitor
  events sent so far, \<open>log_'\<close> the warnings written to the process log.\<close>

record 'c impl =
  event_subject_' :: "(string \<times> event_value) list"
  index_' :: int
  codec_context_' :: "'c AVCodecContext option"
  packets_' :: "AVPacket list"
  nb_frames_' :: "32 word"
  width_' :: int
  height_' :: int
  is_progressive_' :: bool
  file_frame_number_' :: "32 word"
  log_' :: "string list"

subsection \<open>Operations\<close>

text \<open>\<^verbatim>\<open>impl()\<close>: no codec context.\<close>

definition impl_default :: "'c impl" where
  "impl_default =
     \<lparr>event_subject_' = [], index_' = 0, codec_context_' = None, packets_' = [],
      nb_frames_' = 0, width_' = 0, height_' = 0, is_progressive_' = True,
      file_frame_number_' = 0, log_' = []\<rparr>"

text \<open>\<^verbatim>\<open>impl(context)\<close>: \<open>idx\<close> and \<open>ctx\<close> are what \<^verbatim>\<open>open_codec\<close> found, \<open>nb\<close> the
  container's \<^verbatim>\<open>nb_frames\<close> (an \<^verbatim>\<open>int64_t\<close>, cast to 32 bits), \<open>w\<close> and \<open>h\<close> the
  context's size. The constructor does not initialise \<open>is_progressive_'\<close>: \<open>prog\<close> is
  whatever the member holds.\<close>

definition impl_open ::
  "int \<Rightarrow> 'c AVCodecContext \<Rightarrow> 64 word \<Rightarrow> int \<Rightarrow> int \<Rightarrow> bool \<Rightarrow> 'c impl" where
  "impl_open idx ctx nb w h prog =
     \<lparr>event_subject_' = [], index_' = idx, codec_context_' = Some ctx, packets_' = [],
      nb_frames_' = ucast nb, width_' = w, height_' = h, is_progressive_' = prog,
      file_frame_number_' = 0, log_' = []\<rparr>"

text \<open>\<^verbatim>\<open>push\<close>: the argument is a shared pointer, \<open>None\<close> when null.\<close>

definition push :: "'c impl \<Rightarrow> AVPacket option \<Rightarrow> 'c impl" where
  "push s packet =
     (case packet of
        None \<Rightarrow> s
      | Some p \<Rightarrow>
          if stream_index p = index_' s \<or> data p = None
          then s\<lparr>packets_' := packets_' s @ [p]\<rparr>
          else s)"

text \<open>\<^verbatim>\<open>decode\<close>. A negative return code throws; \<^verbatim>\<open>frame_finished == 0\<close> returns
  null; otherwise the progressive flag, the events and the frame number are recorded and
  the picture is returned with its \<open>pts\<close> overwritten.\<close>

definition field_name :: "AVFrame \<Rightarrow> string" where
  "field_name f =
     (if interlaced_frame f = 0 then ''progressive''
      else if top_field_first f \<noteq> 0 then ''upper'' else ''lower'')"

definition decode ::
  "'c libavcodec \<Rightarrow> 'c impl \<Rightarrow> AVPacket \<Rightarrow> (ffmpeg_error + frame_ptr) \<times> 'c impl" where
  "decode L s pkt =
     (case codec_context_' s of
        None \<Rightarrow> (Inl null_codec_context, s)
      | Some ctx \<Rightarrow>
          (case avcodec_decode_video2 L ctx pkt of
             (ret, frame_finished, decoded_frame, ctx') \<Rightarrow>
               let s1 = s\<lparr>codec_context_' := Some ctx'\<rparr> in
               if ret < 0 then (Inl (averror ret), s1)
               else if frame_finished = 0 then (Inr nullptr, s1)
               else
                 let s2 = s1\<lparr>is_progressive_' := (interlaced_frame decoded_frame = 0)\<rparr>;
                     s3 = (if repeat_pict decoded_frame > 0
                           then s2\<lparr>log_' := log_' s2 @
                                  [''[video_decoder] Field repeat_pict not implemented.'']\<rparr>
                           else s2);
                     s4 = s3\<lparr>event_subject_' := event_subject_' s3 @
                            [(''file/video/width'', int_value (width_' s3)),
                             (''file/video/height'', int_value (height_' s3)),
                             (''file/video/field'', text_value (field_name decoded_frame)),
                             (''file/video/codec'', text_value (long_name ctx'))]\<rparr>;
                     s5 = s4\<lparr>file_frame_number_' := ucast (pts pkt)\<rparr>
                 in (Inr (video (decoded_frame\<lparr>frame_pts := ucast (file_frame_number_' s5)\<rparr>)),
                     s5)))"

text \<open>\<^verbatim>\<open>poll\<close>.\<close>

definition poll :: "'c libavcodec \<Rightarrow> 'c impl \<Rightarrow> (ffmpeg_error + frame_ptr) \<times> 'c impl" where
  "poll L s =
     (case packets_' s of
        [] \<Rightarrow> (Inr nullptr, s)
      | packet # rest \<Rightarrow>
          (case codec_context_' s of
             None \<Rightarrow>
               (Inr (if data packet = None then flush_video else empty_video),
                s\<lparr>packets_' := rest\<rparr>)
           | Some ctx \<Rightarrow>
               if data packet = None then
                 (let drained =
                        (if capabilities ctx AND CODEC_CAP_DELAY \<noteq> 0
                         then decode L s packet
                         else (Inr nullptr, s))
                  in case drained of
                       (Inl e, s1) \<Rightarrow> (Inl e, s1)
                     | (Inr v, s1) \<Rightarrow>
                         if v \<noteq> nullptr then (Inr v, s1)
                         else
                           (Inr flush_video,
                            s1\<lparr>packets_' := tl (packets_' s1),
                               codec_context_' :=
                                 map_option (avcodec_flush_buffers L) (codec_context_' s1)\<rparr>))
               else decode L (s\<lparr>packets_' := rest\<rparr>) packet))"

definition ready :: "'c impl \<Rightarrow> bool" where
  "ready s = (packets_' s \<noteq> [])"

definition clear :: "'c impl \<Rightarrow> 'c impl" where
  "clear s = s\<lparr>packets_' := []\<rparr>"

text \<open>\<^verbatim>\<open>nb_frames\<close>: \<^verbatim>\<open>std::max<uint32_t>\<close>, the unsigned order of the words.\<close>

definition nb_frames :: "'c impl \<Rightarrow> 32 word" where
  "nb_frames s = max (nb_frames_' s) (file_frame_number_' s)"

subsection \<open>Histories of calls\<close>

text \<open>A caller's history: a list of \<^verbatim>\<open>push\<close> and \<^verbatim>\<open>poll\<close> calls, run from left to right.
  A \<^verbatim>\<open>poll\<close> that throws leaves the decoder as the exception found it, and the
  history goes on.\<close>

datatype op = Push "AVPacket option" | Poll

definition step :: "'c libavcodec \<Rightarrow> 'c impl \<Rightarrow> op \<Rightarrow> 'c impl" where
  "step L s x = (case x of Push p \<Rightarrow> push s p | Poll \<Rightarrow> snd (poll L s))"

definition run :: "'c libavcodec \<Rightarrow> 'c impl \<Rightarrow> op list \<Rightarrow> 'c impl" where
  "run L s xs = foldl (step L) s xs"

text \<open>The frame number a packet gives when decoded: the low 32 bits of its \<open>pts\<close>.\<close>

definition pts32 :: "AVPacket \<Rightarrow> 32 word" where
  "pts32 p = ucast (pts p)"

text \<open>A packet of another stream that carries a payload.\<close>

definition foreign :: "int \<Rightarrow> AVPacket \<Rightarrow> bool" where
  "foreign idx p = (stream_index p \<noteq> idx \<and> data p \<noteq> None)"

text \<open>The frame number a \<^verbatim>\<open>poll\<close> records: when it returns a picture, the number of the
  packet \<^verbatim>\<open>decode\<close> was given, which is the front of the queue; nothing otherwise.\<close>

definition poll_stamp :: "'c libavcodec \<Rightarrow> 'c impl \<Rightarrow> 32 word list" where
  "poll_stamp L s =
     (case (fst (poll L s), packets_' s) of
        (Inr (video f), p # rest) \<Rightarrow> [pts32 p]
      | _ \<Rightarrow> [])"

text \<open>The frame numbers of the packets a history decodes into pictures, in order.\<close>

fun decoded_stamps :: "'c libavcodec \<Rightarrow> 'c impl \<Rightarrow> op list \<Rightarrow> 32 word list" where
  "decoded_stamps L s [] = []"
| "decoded_stamps L s (x # xs) =
     (case x of Push p \<Rightarrow> [] | Poll \<Rightarrow> poll_stamp L s) @ decoded_stamps L (step L s x) xs"

definition own_stream_queue :: "'c impl \<Rightarrow> bool" where
  "own_stream_queue s = list_all (\<lambda>q. \<not> foreign (index_' s) q) (packets_' s)"

subsection \<open>Concrete decoders for the examples\<close>

text \<open>A codec that finishes a progressive picture on every call and never fails, with no
  state of its own.\<close>

definition always_decodes :: "unit libavcodec" where
  "always_decodes =
     \<lparr>avcodec_decode_video2 = (\<lambda>ctx pkt. (0, 1,
         \<lparr>interlaced_frame = 0, top_field_first = 0, repeat_pict = 0, frame_pts = 0\<rparr>, ctx)),
      avcodec_flush_buffers = (\<lambda>ctx. ctx)\<rparr>"

text \<open>A codec that never finishes a picture.\<close>

definition never_decodes :: "unit libavcodec" where
  "never_decodes =
     \<lparr>avcodec_decode_video2 = (\<lambda>ctx pkt. (0, 0,
         \<lparr>interlaced_frame = 0, top_field_first = 0, repeat_pict = 0, frame_pts = 0\<rparr>, ctx)),
      avcodec_flush_buffers = (\<lambda>ctx. ctx)\<rparr>"

definition plain_ctx :: "unit AVCodecContext" where
  "plain_ctx = \<lparr>capabilities = 0, long_name = ''dv'', priv_data = ()\<rparr>"

definition delay_ctx :: "unit AVCodecContext" where
  "delay_ctx = \<lparr>capabilities = 0x0020, long_name = ''h264'', priv_data = ()\<rparr>"

definition pkt_at :: "64 word \<Rightarrow> AVPacket" where
  "pkt_at t = \<lparr>stream_index = 0, data = Some [], pts = t\<rparr>"

definition marker :: AVPacket where
  "marker = \<lparr>stream_index = 0, data = None, pts = 0\<rparr>"

text \<open>A freshly opened decoder of stream 0 with a container estimate of 0 frames and a
  codec without delayed output.\<close>

definition scenario_ctx :: "unit impl" where
  "scenario_ctx = impl_open 0 plain_ctx 0 720 576 True"

text \<open>A freshly opened decoder whose queue holds the end-of-stream marker only.\<close>

definition drain_state :: "unit AVCodecContext \<Rightarrow> unit impl" where
  "drain_state ctx = (impl_open 0 ctx 0 720 576 True)\<lparr>packets_' := [marker]\<rparr>"

section \<open>Pixel formats and the converting decoder\<close>

text \<open>
  \<^verbatim>\<open>src/core/producer/ffmpeg/video/video_decoder.cpp\<close>: the pixel format lookup, the plane
  descriptor, and \<^verbatim>\<open>video_decoder::implementation::execute\<close>.
\<close>

subsection \<open>Data\<close>

text \<open>libavutil's \<^verbatim>\<open>PixelFormat\<close>: the ten enumerators the code names, and every other
  one.\<close>

datatype PixelFormat =
    PIX_FMT_BGRA | PIX_FMT_ARGB | PIX_FMT_RGBA | PIX_FMT_ABGR
  | PIX_FMT_YUV444P | PIX_FMT_YUV422P | PIX_FMT_YUV420P | PIX_FMT_YUV411P | PIX_FMT_YUV410P
  | PIX_FMT_YUVA420P
  | PIX_FMT_other nat

datatype pixel_format = bgra | argb | rgba | abgr | ycbcr | ycbcra | invalid

text \<open>Modelled from the spec: \<^verbatim>\<open>pixel_format_desc::plane\<close> is declared in a header that
  is not among the sources. The spec's Plane has a width, a height and the bytes per
  sample; \<^verbatim>\<open>execute\<close> reads a plane's \<open>linesize\<close> and \<open>height\<close>, so the line size
  (width times bytes per sample) and the byte size are kept as members too. Sizes are
  \<^verbatim>\<open>size_t\<close> in the source and mathematical integers here.\<close>

record plane =
  linesize :: int
  plane_width :: int
  plane_height :: int
  plane_size :: int
  channels :: int

definition make_plane :: "int \<Rightarrow> int \<Rightarrow> int \<Rightarrow> plane" where
  "make_plane w h c =
     \<lparr>linesize = w * c, plane_width = w, plane_height = h, plane_size = w * h * c, channels = c\<rparr>"

record pixel_format_desc =
  pix_fmt :: pixel_format
  planes :: "plane list"

text \<open>\<^verbatim>\<open>AVPicture\<close>: four plane pointers and four line sizes. A pointer is an address; the
  bytes behind the pointers of a decoded picture are \<open>memory\<close>.\<close>

record AVPicture =
  pict_data :: "nat \<Rightarrow> int"
  pict_linesize :: "nat \<Rightarrow> int"

datatype arith_error = division_by_zero

subsection \<open>The lookup and the plane descriptor\<close>

fun get_pixel_format :: "PixelFormat \<Rightarrow> pixel_format" where
  "get_pixel_format PIX_FMT_BGRA = bgra"
| "get_pixel_format PIX_FMT_ARGB = argb"
| "get_pixel_format PIX_FMT_RGBA = rgba"
| "get_pixel_format PIX_FMT_ABGR = abgr"
| "get_pixel_format PIX_FMT_YUV444P = ycbcr"
| "get_pixel_format PIX_FMT_YUV422P = ycbcr"
| "get_pixel_format PIX_FMT_YUV420P = ycbcr"
| "get_pixel_format PIX_FMT_YUV411P = ycbcr"
| "get_pixel_format PIX_FMT_YUV410P = ycbcr"
| "get_pixel_format PIX_FMT_YUVA420P = ycbcra"
| "get_pixel_format (PIX_FMT_other n) = invalid"

text \<open>\<^verbatim>\<open>get_pixel_format_desc\<close>. \<open>avpicture_fill fmt w h\<close> is libavcodec's layout of a
  picture at the null base address. The integer division \<^verbatim>\<open>linesize[0]/4\<close> truncates
  (\<open>sdiv\<close>); \<^verbatim>\<open>size2/linesize[1]\<close> divides by zero when the chroma line size is zero,
  which the model returns as an error.\<close>

definition get_pixel_format_desc ::
  "(PixelFormat \<Rightarrow> int \<Rightarrow> int \<Rightarrow> AVPicture) \<Rightarrow> PixelFormat \<Rightarrow> int \<Rightarrow> int \<Rightarrow>
     arith_error + pixel_format_desc" where
  "get_pixel_format_desc avpicture_fill fmt w h =
     (let dummy_pict = avpicture_fill fmt w h;
          desc = \<lparr>pix_fmt = get_pixel_format fmt, planes = []\<rparr>;
          packed =
            Inr (desc\<lparr>planes := planes desc @
                                 [make_plane (pict_linesize dummy_pict 0 sdiv 4) h 4]\<rparr>);
          planar =
            (let size2 = pict_data dummy_pict 2 - pict_data dummy_pict 1 in
             if pict_linesize dummy_pict 1 = 0 then Inl division_by_zero
             else
               let h2 = size2 div pict_linesize dummy_pict 1;
                   d1 = desc\<lparr>planes := planes desc @ [make_plane (pict_linesize dummy_pict 0) h 1]\<rparr>;
                   d2 = d1\<lparr>planes := planes d1 @ [make_plane (pict_linesize dummy_pict 1) h2 1]\<rparr>;
                   d3 = d2\<lparr>planes := planes d2 @ [make_plane (pict_linesize dummy_pict 2) h2 1]\<rparr>
               in if pix_fmt d3 = ycbcra
                  then Inr (d3\<lparr>planes := planes d3 @
                                         [make_plane (pict_linesize dummy_pict 3) h 1]\<rparr>)
                  else Inr d3)
      in case pix_fmt desc of
           bgra \<Rightarrow> packed
         | argb \<Rightarrow> packed
         | rgba \<Rightarrow> packed
         | abgr \<Rightarrow> packed
         | ycbcr \<Rightarrow> planar
         | ycbcra \<Rightarrow> planar
         | invalid \<Rightarrow> Inr (desc\<lparr>pix_fmt := invalid\<rparr>))"

text \<open>A layout for the examples: line sizes and plane offsets of a 4:2:0 picture, the same
  whatever the format.\<close>

definition layout420 :: "PixelFormat \<Rightarrow> int \<Rightarrow> int \<Rightarrow> AVPicture" where
  "layout420 fmt w h =
     \<lparr>pict_data = (\<lambda>n. if n = 0 then 0 else if n = 1 then w * h
                        else if n = 2 then w * h + (w div 2) * (h div 2)
                        else w * h + 2 * ((w div 2) * (h div 2))),
      pict_linesize = (\<lambda>n. if n = 0 \<or> n = 3 then w else w div 2)\<rparr>"

definition layout_packed :: "PixelFormat \<Rightarrow> int \<Rightarrow> int \<Rightarrow> AVPicture" where
  "layout_packed fmt w h = \<lparr>pict_data = (\<lambda>n. 0), pict_linesize = (\<lambda>n. if n = 0 then 4 * w else 0)\<rparr>"

subsection \<open>The converting decoder\<close>

text \<open>What \<^verbatim>\<open>execute\<close> reads of the codec context (libavcodec's \<^verbatim>\<open>AVCodecContext\<close>;
  the members are prefixed where the name is taken above).\<close>

datatype CodecID = CODEC_ID_DVVIDEO | CODEC_ID_other nat

record codec_context =
  ctx_width :: int
  ctx_height :: int
  ctx_pix_fmt :: PixelFormat
  codec_id :: CodecID
  time_base_num :: int
  time_base_den :: int

text \<open>\<^verbatim>\<open>video_mode\<close>: the source names \<open>upper\<close> only.\<close>

datatype video_mode = upper | video_mode_other nat

text \<open>A \<^verbatim>\<open>double\<close> is kept as the expression the source computes it with, and is not
  evaluated: rounding, infinities and NaN are outside this model.\<close>

datatype fp = fp_literal real | fp_of_int int | fp_div fp fp

record video_format_desc =
  width :: int
  height :: int
  fps :: fp
  mode :: video_mode

text \<open>The frame's transform is the list of the mutator calls made on it, in order.\<close>

datatype transform_call = set_image_translation fp fp

record write_frame =
  image_data :: "8 word list list"
  image_transform :: "transform_call list"

datatype caspar_exception = invalid_operation "string list"

text \<open>The collaborators of \<^verbatim>\<open>execute\<close>: the library's decoder (return code,
  \<^verbatim>\<open>frame_finished\<close>, the decoded picture, the memory behind its pointers, the context
  afterwards), the frame factory and the scaler, which returns the destination buffer as
  written.\<close>

record ('f, 'w) environment =
  avcodec_decode_video ::
    "codec_context \<Rightarrow> 8 word list \<Rightarrow> int \<times> int \<times> AVPicture \<times> (int \<Rightarrow> 8 word) \<times> codec_context"
  create_frame :: "'f \<Rightarrow> pixel_format_desc \<Rightarrow> write_frame"
  get_video_format_desc :: "'f \<Rightarrow> video_format_desc"
  sws_scale :: "'w \<Rightarrow> AVPicture \<Rightarrow> (int \<Rightarrow> 8 word) \<Rightarrow> int \<Rightarrow> 8 word list \<Rightarrow> 8 word list"

text \<open>The members of \<^verbatim>\<open>video_decoder::implementation\<close> (\<open>_i\<close> where the name is a member
  of the stream decoder too).\<close>

record ('f, 'w) implementation =
  frame_factory_' :: 'f
  sws_context_' :: "'w option"
  codec_context_i :: codec_context
  width_i :: int
  height_i :: int
  pix_fmt_' :: PixelFormat
  desc_' :: pixel_format_desc

text \<open>\<^verbatim>\<open>std::copy_n\<close> into a buffer at an offset. A destination too short for the write is
  undefined behaviour in the source; here the list grows.\<close>

definition write_at :: "8 word list \<Rightarrow> nat \<Rightarrow> 8 word list \<Rightarrow> 8 word list" where
  "write_at buf off bytes = take off buf @ bytes @ drop (off + length bytes) buf"

text \<open>The copy of one plane, scanline by scanline (the two \<^verbatim>\<open>parallel_for\<close> loops write
  disjoint ranges, so their order does not matter).\<close>

definition copy_plane ::
  "plane \<Rightarrow> int \<Rightarrow> int \<Rightarrow> (int \<Rightarrow> 8 word) \<Rightarrow> 8 word list \<Rightarrow> 8 word list" where
  "copy_plane pl decoded decoded_linesize memory result =
     foldl (\<lambda>buf y.
              write_at buf (y * nat (linesize pl))
                (map (\<lambda>k. memory (decoded + int y * decoded_linesize + int k))
                   [0 ..< nat (linesize pl)]))
       result [0 ..< nat (plane_height pl)]"

definition copy_planes ::
  "pixel_format_desc \<Rightarrow> AVPicture \<Rightarrow> (int \<Rightarrow> 8 word) \<Rightarrow> write_frame \<Rightarrow> write_frame" where
  "copy_planes desc decoded_frame memory write =
     foldl (\<lambda>w n.
              w\<lparr>image_data := (image_data w)
                   [n := copy_plane (planes desc ! n) (pict_data decoded_frame n)
                           (pict_linesize decoded_frame n) memory (image_data w ! n)]\<rparr>)
       write [0 ..< length (planes desc)]"

definition execute ::
  "('f, 'w) environment \<Rightarrow> ('f, 'w) implementation \<Rightarrow> 8 word list \<Rightarrow>
     (caspar_exception + write_frame) \<times> ('f, 'w) implementation" where
  "execute E s video_packet =
     (case avcodec_decode_video E (codec_context_i s) video_packet of
        (result, frame_finished, decoded_frame, memory, ctx') \<Rightarrow>
          let s1 = s\<lparr>codec_context_i := ctx'\<rparr> in
          if result < 0
          then (Inl (invalid_operation [''avcodec_decode_video failed'']), s1)
          else
            let write = create_frame E (frame_factory_' s1) (desc_' s1);
                write1 =
                  (case sws_context_' s1 of
                     None \<Rightarrow> copy_planes (desc_' s1) decoded_frame memory write
                   | Some sws \<Rightarrow>
                       write\<lparr>image_data := (image_data write)
                                [0 := sws_scale E sws decoded_frame memory (height_i s1)
                                        (image_data write ! 0)]\<rparr>);
                write2 =
                  (if codec_id (codec_context_i s1) = CODEC_ID_DVVIDEO \<and>
                      mode (get_video_format_desc E (frame_factory_' s1)) = upper
                   then write1\<lparr>image_transform := image_transform write1 @
                          [set_image_translation (fp_literal 0)
                             (fp_div (fp_literal 1) (fp_of_int (height_i s1)))]\<rparr>
                   else write1)
            in (Inr write2, s1))"

section \<open>The mixer\<close>

text \<open>
  The second source file: \<^verbatim>\<open>mixed_frame\<close> and \<^verbatim>\<open>mixer::impl\<close>.
\<close>

subsection \<open>The mixed frame\<close>

text \<open>\<open>image_data_'\<close> is the value of the future, \<open>tag_'\<close> an address.\<close>

record ('img, 'aud) mixed_frame =
  image_data_' :: 'img
  audio_data_' :: 'aud
  video_desc_' :: video_format_desc
  pixel_desc_' :: pixel_format_desc
  tag_' :: nat

definition make_mixed_frame ::
  "nat \<Rightarrow> 'img \<Rightarrow> 'aud \<Rightarrow> video_format_desc \<Rightarrow> ('img, 'aud) mixed_frame" where
  "make_mixed_frame tag img aud format_desc =
     (let pd = \<lparr>pix_fmt = bgra, planes = []\<rparr>
      in \<lparr>image_data_' = img, audio_data_' = aud, video_desc_' = format_desc,
          pixel_desc_' =
            pd\<lparr>planes := planes pd @ [make_plane (width format_desc) (height format_desc) 4]\<rparr>,
          tag_' = tag\<rparr>)"

text \<open>The accessors. Each is given the frame and returns it with the result, so that a
  change of the frame would show.\<close>

definition image_data_const :: "('img, 'aud) mixed_frame \<Rightarrow> int \<Rightarrow> 'img" where
  "image_data_const f index = image_data_' f"

definition image_data_nonconst ::
  "('img, 'aud) mixed_frame \<Rightarrow> int \<Rightarrow> (caspar_exception + 8 word list) \<times> ('img, 'aud) mixed_frame" where
  "image_data_nonconst f index = (Inl (invalid_operation []), f)"

definition audio_data_const :: "('img, 'aud) mixed_frame \<Rightarrow> 'aud" where
  "audio_data_const f = audio_data_' f"

definition audio_data_nonconst ::
  "('img, 'aud) mixed_frame \<Rightarrow> (caspar_exception + 'aud) \<times> ('img, 'aud) mixed_frame" where
  "audio_data_nonconst f = (Inl (invalid_operation []), f)"

datatype ('img, 'aud) data_frame = data_frame_empty | mixed "('img, 'aud) mixed_frame"

subsection \<open>The orchestrator\<close>

text \<open>\<^verbatim>\<open>blend_mode\<close>: the source names \<open>normal\<close> only.\<close>

datatype blend_mode = normal | blend_mode_other nat

text \<open>The calls \<^verbatim>\<open>operator()\<close> makes on its collaborators (the image mixer, the audio
  mixer, the layers' frames and the allocation of the result), in the order of the source.\<close>

datatype 'df call =
    begin_layer blend_mode
  | accept_audio 'df
  | accept_image 'df
  | end_layer
  | image_mixer_finish video_format_desc
  | audio_mixer_finish video_format_desc
  | allocate_mixed_frame

text \<open>The collaborators are not part of this repository's sources; whatever they do is a
  function of the calls made on them so far. \<open>raises h\<close> is the exception the last call
  of the history \<open>h\<close> throws, if it throws; \<open>image_of h\<close> and \<open>audio_of h\<close> are what the
  two mixers return at the end of \<open>h\<close>.\<close>

record ('e, 'df, 'img, 'aud) collaborators =
  raises :: "'df call list \<Rightarrow> 'e option"
  image_of :: "'df call list \<Rightarrow> 'img"
  audio_of :: "'df call list \<Rightarrow> 'aud"

text \<open>The closure \<^verbatim>\<open>set_blend_mode\<close> hands to the executor.\<close>

datatype task = set_blend_mode_task int blend_mode

text \<open>The members of \<^verbatim>\<open>mixer::impl\<close>. \<open>calls_'\<close> stands for \<open>audio_mixer_\<close> and
  \<open>image_mixer_\<close>: the calls made on them so far. \<open>executor_'\<close> is the executor's queue of
  tasks submitted and not yet run, \<open>this_'\<close> the object's address and \<open>logged_'\<close> the
  exceptions written to the log.\<close>

record ('e, 'df) mixer_impl =
  calls_' :: "'df call list"
  blend_modes_' :: "int \<rightharpoonup> blend_mode"
  executor_' :: "task list"
  this_' :: nat
  logged_' :: "'e list"

text \<open>The body of \<^verbatim>\<open>set_blend_mode\<close>'s closure: \<^verbatim>\<open>find\<close>, then insert or assign.\<close>

definition run_task :: "task \<Rightarrow> ('e, 'df) mixer_impl \<Rightarrow> ('e, 'df) mixer_impl" where
  "run_task t s =
     (case t of
        set_blend_mode_task index v \<Rightarrow>
          (case blend_modes_' s index of
             None \<Rightarrow> s\<lparr>blend_modes_' := (blend_modes_' s)(index \<mapsto> v)\<rparr>
           | Some old \<Rightarrow> s\<lparr>blend_modes_' := (blend_modes_' s)(index \<mapsto> v)\<rparr>))"

text \<open>Modelled from the spec: the executor (\<^verbatim>\<open>common/concurrency/executor.h\<close>) is not
  among the sources. By the spec it is a single-worker serialized queue: a task runs to
  completion before the next starts, \<^verbatim>\<open>begin_invoke\<close> submits a task and returns,
  \<^verbatim>\<open>invoke\<close> submits one and waits for its result, and a priority task is ordered before
  any tick submitted after it. Here \<^verbatim>\<open>begin_invoke\<close> puts the task on the queue.\<close>

definition begin_invoke :: "task \<Rightarrow> ('e, 'df) mixer_impl \<Rightarrow> ('e, 'df) mixer_impl" where
  "begin_invoke t s = s\<lparr>executor_' := executor_' s @ [t]\<rparr>"

text \<open>Modelled from the spec: the executor's worker, running the queued tasks in the order
  they were submitted.\<close>

definition execute_pending :: "('e, 'df) mixer_impl \<Rightarrow> ('e, 'df) mixer_impl" where
  "execute_pending s = foldl (\<lambda>s' t. run_task t s') (s\<lparr>executor_' := []\<rparr>) (executor_' s)"

text \<open>Modelled from the spec: the executor's \<^verbatim>\<open>invoke\<close>. The closure runs after what was
  queued before it, and its result is handed back to the caller.\<close>

definition executor_invoke ::
  "(('e, 'df) mixer_impl \<Rightarrow> 'r \<times> ('e, 'df) mixer_impl) \<Rightarrow> ('e, 'df) mixer_impl \<Rightarrow>
     'r \<times> ('e, 'df) mixer_impl" where
  "executor_invoke f s = f (execute_pending s)"

text \<open>One call on a collaborator: it is recorded, and it returns or throws.\<close>

definition perform ::
  "('e, 'df, 'img, 'aud) collaborators \<Rightarrow> 'df call \<Rightarrow> ('e, 'df) mixer_impl \<Rightarrow>
     ('e + unit) \<times> ('e, 'df) mixer_impl" where
  "perform C c s =
     (let h = calls_' s @ [c]
      in (case raises C h of Some e \<Rightarrow> Inl e | None \<Rightarrow> Inr (), s\<lparr>calls_' := h\<rparr>))"

text \<open>Sequencing: an exception ends the block.\<close>

definition and_then ::
  "('s \<Rightarrow> ('e + 'a) \<times> 's) \<Rightarrow> ('a \<Rightarrow> 's \<Rightarrow> ('e + 'b) \<times> 's) \<Rightarrow> 's \<Rightarrow> ('e + 'b) \<times> 's" where
  "and_then m k s = (case m s of (Inl e, s') \<Rightarrow> (Inl e, s') | (Inr a, s') \<Rightarrow> k a s')"

text \<open>The blend mode \<^verbatim>\<open>operator()\<close> resolves for a layer index.\<close>

definition blend_of :: "('e, 'df) mixer_impl \<Rightarrow> int \<Rightarrow> blend_mode" where
  "blend_of s index = (case blend_modes_' s index of Some m \<Rightarrow> m | None \<Rightarrow> normal)"

text \<open>The \<^verbatim>\<open>BOOST_FOREACH\<close> loop. \<open>frames\<close> is the \<^verbatim>\<open>std::map\<close> as the list of its
  entries in iteration order (ascending keys).\<close>

fun visit_layers ::
  "('e, 'df, 'img, 'aud) collaborators \<Rightarrow> (int \<times> 'df) list \<Rightarrow> ('e, 'df) mixer_impl \<Rightarrow>
     ('e + unit) \<times> ('e, 'df) mixer_impl" where
  "visit_layers C [] s = (Inr (), s)"
| "visit_layers C (frame # frames) s =
     and_then (perform C (begin_layer (blend_of s (fst frame))))
       (\<lambda>_. and_then (perform C (accept_audio (snd frame)))
         (\<lambda>_. and_then (perform C (accept_image (snd frame)))
           (\<lambda>_. and_then (perform C end_layer)
             (\<lambda>_. visit_layers C frames)))) s"

text \<open>The \<^verbatim>\<open>try\<close> block.\<close>

definition compose ::
  "('e, 'df, 'img, 'aud) collaborators \<Rightarrow> (int \<times> 'df) list \<Rightarrow> video_format_desc \<Rightarrow>
     ('e, 'df) mixer_impl \<Rightarrow> ('e + ('img, 'aud) data_frame) \<times> ('e, 'df) mixer_impl" where
  "compose C frames format_desc =
     and_then (visit_layers C frames)
       (\<lambda>_. and_then (perform C (image_mixer_finish format_desc))
         (\<lambda>_ s. let img = image_of C (calls_' s) in
           and_then (perform C (audio_mixer_finish format_desc))
             (\<lambda>_ s. let aud = audio_of C (calls_' s) in
               and_then (perform C allocate_mixed_frame)
                 (\<lambda>_ s. (Inr (mixed (make_mixed_frame (this_' s) img aud format_desc)), s))
                 s)
             s))"

text \<open>The closure of \<^verbatim>\<open>operator()\<close>: the \<^verbatim>\<open>try\<close> block and its \<^verbatim>\<open>catch(...)\<close>, which
  logs and returns the empty frame. The result type keeps a place for an exception that
  leaves the closure.\<close>

definition tick ::
  "('e, 'df, 'img, 'aud) collaborators \<Rightarrow> (int \<times> 'df) list \<Rightarrow> video_format_desc \<Rightarrow>
     ('e, 'df) mixer_impl \<Rightarrow> ('e + ('img, 'aud) data_frame) \<times> ('e, 'df) mixer_impl" where
  "tick C frames format_desc s =
     (case compose C frames format_desc s of
        (Inr frame, s') \<Rightarrow> (Inr frame, s')
      | (Inl e, s') \<Rightarrow> (Inr data_frame_empty, s'\<lparr>logged_' := logged_' s' @ [e]\<rparr>))"

text \<open>\<^verbatim>\<open>operator()\<close> and \<^verbatim>\<open>set_blend_mode\<close>.\<close>

definition invoke ::
  "('e, 'df, 'img, 'aud) collaborators \<Rightarrow> ('e, 'df) mixer_impl \<Rightarrow> (int \<times> 'df) list \<Rightarrow>
     video_format_desc \<Rightarrow> ('e + ('img, 'aud) data_frame) \<times> ('e, 'df) mixer_impl" where
  "invoke C s frames format_desc = executor_invoke (tick C frames format_desc) s"

definition set_blend_mode :: "('e, 'df) mixer_impl \<Rightarrow> int \<Rightarrow> blend_mode \<Rightarrow> ('e, 'df) mixer_impl" where
  "set_blend_mode s index v = begin_invoke (set_blend_mode_task index v) s"

text \<open>What a tick calls when nothing throws: per layer the four calls of the loop body
  with the layer's blend mode, then the two mixers and the allocation.\<close>

definition layer_calls :: "('e, 'df) mixer_impl \<Rightarrow> int \<times> 'df \<Rightarrow> 'df call list" where
  "layer_calls s frame =
     [begin_layer (blend_of s (fst frame)), accept_audio (snd frame),
      accept_image (snd frame), end_layer]"

definition tick_calls ::
  "('e, 'df) mixer_impl \<Rightarrow> (int \<times> 'df) list \<Rightarrow> video_format_desc \<Rightarrow> 'df call list" where
  "tick_calls s frames format_desc =
     concat (map (layer_calls s) frames) @
     [image_mixer_finish format_desc, audio_mixer_finish format_desc, allocate_mixed_frame]"

text \<open>A list of calls performed one after the other, up to the first that throws.\<close>

fun perform_all ::
  "('e, 'df, 'img, 'aud) collaborators \<Rightarrow> 'df call list \<Rightarrow> ('e, 'df) mixer_impl \<Rightarrow>
     ('e + unit) \<times> ('e, 'df) mixer_impl" where
  "perform_all C [] s = (Inr (), s)"
| "perform_all C (c # cs) s = and_then (perform C c) (\<lambda>_. perform_all C cs) s"

subsection \<open>Concrete values for the examples\<close>

definition pal :: video_format_desc where
  "pal = \<lparr>width = 720, height = 576, fps = fp_literal 25, mode = upper\<rparr>"

definition progressive_720 :: video_format_desc where
  "progressive_720 = \<lparr>width = 1280, height = 720, fps = fp_literal 50, mode = video_mode_other 0\<rparr>"

text \<open>Collaborators that never throw, and collaborators whose image visit throws.\<close>

definition quiet :: "(string, nat, nat, nat) collaborators" where
  "quiet = \<lparr>raises = (\<lambda>h. None), image_of = length, audio_of = length\<rparr>"

definition image_visit_throws :: "(string, nat, nat, nat) collaborators" where
  "image_visit_throws =
     \<lparr>raises = (\<lambda>h. case last h of accept_image f \<Rightarrow> Some ''gl error'' | _ \<Rightarrow> None),
      image_of = length, audio_of = length\<rparr>"

definition mixer0 :: "(string, nat) mixer_impl" where
  "mixer0 = \<lparr>calls_' = [], blend_modes_' = Map.empty, executor_' = [], this_' = 1, logged_' = []\<rparr>"

text \<open>A decoder that succeeds, a factory that allocates zeroed planes, and two converting
  decoders on a DV and on another stream.\<close>

definition test_env :: "(video_format_desc, unit) environment" where
  "test_env =
     \<lparr>avcodec_decode_video = (\<lambda>ctx pkt. (0, 1, layout420 PIX_FMT_YUV420P 4 2, (\<lambda>a. 0), ctx)),
      create_frame = (\<lambda>f d. \<lparr>image_data = map (\<lambda>p. replicate (nat (plane_size p)) 0) (planes d),
                              image_transform = []\<rparr>),
      get_video_format_desc = (\<lambda>f. f),
      sws_scale = (\<lambda>w pic mem h buf. buf)\<rparr>"

definition test_decoder :: "CodecID \<Rightarrow> video_format_desc \<Rightarrow> (video_format_desc, unit) implementation" where
  "test_decoder cid fd =
     \<lparr>frame_factory_' = fd, sws_context_' = Some (),
      codec_context_i =
        \<lparr>ctx_width = 720, ctx_height = 576, ctx_pix_fmt = PIX_FMT_other 0, codec_id = cid,
         time_base_num = 1, time_base_den = 25\<rparr>,
      width_i = 720, height_i = 576, pix_fmt_' = PIX_FMT_other 0,
      desc_' = \<lparr>pix_fmt = bgra, planes = [make_plane 720 576 4]\<rparr>\<rparr>"

section \<open>Properties of the stream decoder\<close>

subsection \<open>What one call changes\<close>

lemma decode_frame:
  "decode L s pkt = (r, s') \<Longrightarrow>
     packets_' s' = packets_' s \<and> index_' s' = index_' s \<and> nb_frames_' s' = nb_frames_' s \<and>
     (case r of Inr (video f) \<Rightarrow> file_frame_number_' s' = pts32 pkt
              | _ \<Rightarrow> file_frame_number_' s' = file_frame_number_' s)"
  by (auto simp: decode_def pts32_def Let_def split: option.splits prod.splits if_splits)

lemma decode_packets_irrelevant:
  "fst (decode L (s\<lparr>packets_' := q\<rparr>) pkt) = fst (decode L s pkt)"
  by (auto simp: decode_def Let_def split: option.splits prod.splits if_splits)

lemma push_fields:
  "index_' (push s p) = index_' s \<and> nb_frames_' (push s p) = nb_frames_' s \<and>
   file_frame_number_' (push s p) = file_frame_number_' s"
  by (simp add: push_def split: option.splits)

lemma decode_fields:
  "packets_' (snd (decode L s pkt)) = packets_' s \<and> index_' (snd (decode L s pkt)) = index_' s \<and>
   nb_frames_' (snd (decode L s pkt)) = nb_frames_' s"
  by (auto simp: decode_def Let_def split: option.splits prod.splits if_splits)

lemma poll_fields:
  "index_' (snd (poll L s)) = index_' s \<and> nb_frames_' (snd (poll L s)) = nb_frames_' s"
proof (cases "packets_' s")
  case Nil
  then show ?thesis by (simp add: poll_def)
next
  case (Cons m rest)
  show ?thesis
  proof (cases "codec_context_' s")
    case None
    then show ?thesis using Cons by (simp add: poll_def)
  next
    case (Some ctx)
    obtain r s1 where d: "decode L s m = (r, s1)"
      by (cases "decode L s m")
    with decode_fields [of L s m] have "index_' s1 = index_' s \<and> nb_frames_' s1 = nb_frames_' s"
      by simp
    with d Some Cons show ?thesis
      by (simp add: poll_def decode_fields split: sum.splits frame_ptr.splits)
  qed
qed

lemma step_fields:
  "index_' (step L s x) = index_' s \<and> nb_frames_' (step L s x) = nb_frames_' s"
  by (cases x) (simp_all add: step_def push_fields poll_fields)

lemma run_fields:
  "index_' (run L s xs) = index_' s \<and> nb_frames_' (run L s xs) = nb_frames_' s"
  unfolding run_def by (induction xs arbitrary: s) (simp_all add: step_fields)

lemma poll_stamped:
  "file_frame_number_' (snd (poll L s)) = last (file_frame_number_' s # poll_stamp L s)"
proof (cases "packets_' s")
  case Nil
  then show ?thesis by (simp add: poll_def poll_stamp_def)
next
  case (Cons m rest)
  note q = Cons
  show ?thesis
  proof (cases "codec_context_' s")
    case None
    then show ?thesis using q by (simp add: poll_def poll_stamp_def)
  next
    case (Some ctx)
    show ?thesis
    proof (cases "data m = None")
      case False
      obtain r s1 where d: "decode L (s\<lparr>packets_' := rest\<rparr>) m = (r, s1)"
        by (cases "decode L (s\<lparr>packets_' := rest\<rparr>) m")
      from False obtain y where y: "data m = Some y"
        by blast
      have p: "poll L s = (r, s1)"
        using y Some q d by (simp add: poll_def)
      from decode_frame [OF d] show ?thesis
        by (simp add: p q poll_stamp_def split: sum.splits frame_ptr.splits)
    next
      case True
      show ?thesis
      proof (cases "capabilities ctx AND CODEC_CAP_DELAY \<noteq> 0")
        case False
        then show ?thesis using True Some q by (simp add: poll_def poll_stamp_def)
      next
        case cap: True
        obtain r s1 where d: "decode L s m = (r, s1)"
          by (cases "decode L s m")
        from decode_frame [OF d] cap True Some q d show ?thesis
          by (auto simp: poll_def poll_stamp_def split: sum.splits frame_ptr.splits)
      qed
    qed
  qed
qed

lemma step_stamped:
  "file_frame_number_' (step L s x) =
     last (file_frame_number_' s # (case x of Push p \<Rightarrow> [] | Poll \<Rightarrow> poll_stamp L s))"
  by (cases x) (simp_all add: step_def push_fields poll_stamped)

lemma run_stamped:
  "file_frame_number_' (run L s xs) = last (file_frame_number_' s # decoded_stamps L s xs)"
proof (induction xs arbitrary: s)
  case Nil
  then show ?case by (simp add: run_def)
next
  case (Cons x xs)
  have "file_frame_number_' (run L s (x # xs)) = file_frame_number_' (run L (step L s x) xs)"
    by (simp add: run_def)
  also have "\<dots> = last (file_frame_number_' (step L s x) # decoded_stamps L (step L s x) xs)"
    by (rule Cons.IH)
  finally show ?case
    by (simp add: step_stamped)
qed

lemma decoded_append:
  "decoded_stamps L s (xs @ ys) = decoded_stamps L s xs @ decoded_stamps L (run L s xs) ys"
  by (induction xs arbitrary: s) (simp_all add: run_def)

lemma sorted_last_prefix:
  fixes as :: "('a :: linorder) list"
  assumes "sorted (as @ bs)" and "as \<noteq> []"
  shows "last as \<le> last (as @ bs)"
proof (cases "bs = []")
  case True
  then show ?thesis by simp
next
  case False
  with assms have "last as \<in> set as" and "last bs \<in> set bs"
    by simp_all
  with assms False show ?thesis
    by (simp add: sorted_append)
qed

lemma scenario_decoded:
  "decoded_stamps always_decodes scenario_ctx
     [Push (Some (pkt_at 1)), Push (Some (pkt_at 2)), Push (Some (pkt_at 3)), Push (Some marker),
      Poll, Poll, Poll, Poll, Poll] = [1, 2, 3]"
  by (simp add: scenario_ctx_def poll_stamp_def step_def push_def poll_def decode_def
      impl_open_def pkt_at_def marker_def pts32_def plain_ctx_def always_decodes_def
      CODEC_CAP_DELAY_def Let_def)

lemma scenario_start: "file_frame_number_' scenario_ctx = 0"
  by (simp add: scenario_ctx_def impl_open_def)

lemma push_own_stream_queue: "own_stream_queue s \<Longrightarrow> own_stream_queue (push s p)"
  by (auto simp: own_stream_queue_def push_def foreign_def split: option.splits)

lemma poll_packets:
  "packets_' (snd (poll L s)) = packets_' s \<or> packets_' (snd (poll L s)) = tl (packets_' s)"
proof (cases "packets_' s")
  case Nil
  then show ?thesis by (simp add: poll_def)
next
  case (Cons m rest)
  show ?thesis
  proof (cases "codec_context_' s")
    case None
    then show ?thesis using Cons by (simp add: poll_def)
  next
    case (Some ctx)
    obtain r s1 where d: "decode L s m = (r, s1)"
      by (cases "decode L s m")
    with decode_fields [of L s m] have "packets_' s1 = packets_' s"
      by simp
    with d Some Cons show ?thesis
      by (simp add: poll_def decode_fields split: sum.splits frame_ptr.splits)
  qed
qed

lemma poll_own_stream_queue:
  assumes "own_stream_queue s"
  shows "own_stream_queue (snd (poll L s))"
proof -
  from assms have "list_all (\<lambda>q. \<not> foreign (index_' s) q) (tl (packets_' s))"
    by (cases "packets_' s") (simp_all add: own_stream_queue_def)
  with assms poll_packets [of L s] show ?thesis
    by (auto simp: own_stream_queue_def poll_fields)
qed

lemma run_own_stream_queue: "own_stream_queue s \<Longrightarrow> own_stream_queue (run L s xs)"
proof (induction xs arbitrary: s)
  case Nil
  then show ?case by (simp add: run_def)
next
  case (Cons x xs)
  have "own_stream_queue (step L s x)"
    using Cons.prems by (cases x) (simp_all add: step_def push_own_stream_queue poll_own_stream_queue)
  from Cons.IH [OF this] show ?case by (simp add: run_def)
qed

lemma poll_video_source:
  assumes "fst (poll L s) = Inr (video f)"
  shows "\<exists>pkt rest. packets_' s = pkt # rest \<and> fst (decode L s pkt) = Inr (video f)"
proof (cases "packets_' s")
  case Nil
  then show ?thesis using assms by (simp add: poll_def)
next
  case (Cons m rest)
  show ?thesis
  proof (cases "codec_context_' s")
    case None
    then show ?thesis using Cons assms by (simp add: poll_def split: if_splits)
  next
    case (Some ctx)
    show ?thesis
    proof (cases "data m = None")
      case False
      with Some Cons assms have "fst (decode L (s\<lparr>packets_' := rest\<rparr>) m) = Inr (video f)"
        by (simp add: poll_def)
      then show ?thesis using Cons by (simp add: decode_packets_irrelevant)
    next
      case True
      obtain r s1 where d: "decode L s m = (r, s1)"
        by (cases "decode L s m")
      with True Some Cons assms show ?thesis
        by (auto simp: poll_def split: sum.splits frame_ptr.splits if_splits)
    qed
  qed
qed

section \<open>Properties of the mixer\<close>

lemma perform_all_append:
  "perform_all C (cs @ ds) s = and_then (perform_all C cs) (\<lambda>_. perform_all C ds) s"
  by (induction cs arbitrary: s) (auto simp: and_then_def split: prod.splits sum.splits)

lemma layer_calls_cong:
  "blend_modes_' t = blend_modes_' s \<Longrightarrow> layer_calls t = layer_calls s"
  by (auto simp: layer_calls_def blend_of_def fun_eq_iff)

lemma perform_all_state:
  "\<exists>n\<le>length cs. snd (perform_all C cs s) = s\<lparr>calls_' := calls_' s @ take n cs\<rparr> \<and>
     (fst (perform_all C cs s) = Inr () \<longrightarrow> n = length cs)"
proof (induction cs arbitrary: s)
  case Nil
  then show ?case by simp
next
  case (Cons c cs)
  show ?case
  proof (cases "raises C (calls_' s @ [c])")
    case (Some e)
    then have "snd (perform_all C (c # cs) s) = s\<lparr>calls_' := calls_' s @ take 1 (c # cs)\<rparr>"
      and "fst (perform_all C (c # cs) s) \<noteq> Inr ()"
      by (simp_all add: and_then_def perform_def Let_def)
    then show ?thesis by (intro exI [of _ 1]) simp
  next
    case None
    then have eq: "perform_all C (c # cs) s = perform_all C cs (s\<lparr>calls_' := calls_' s @ [c]\<rparr>)"
      by (simp add: and_then_def perform_def Let_def)
    from Cons.IH [of "s\<lparr>calls_' := calls_' s @ [c]\<rparr>"]
    obtain n where n: "n \<le> length cs"
      "snd (perform_all C cs (s\<lparr>calls_' := calls_' s @ [c]\<rparr>)) =
         s\<lparr>calls_' := calls_' s @ [c] @ take n cs\<rparr>"
      "fst (perform_all C cs (s\<lparr>calls_' := calls_' s @ [c]\<rparr>)) = Inr () \<longrightarrow> n = length cs"
      by auto
    then show ?thesis using eq by (intro exI [of _ "Suc n"]) simp
  qed
qed

lemma perform_all_ok:
  "(fst (perform_all C cs s) = Inr ()) =
   (\<forall>n<length cs. raises C (calls_' s @ take (Suc n) cs) = None)"
proof (induction cs arbitrary: s)
  case Nil
  then show ?case by simp
next
  case (Cons c cs)
  show ?case
  proof (cases "raises C (calls_' s @ [c])")
    case (Some e)
    then have "fst (perform_all C (c # cs) s) \<noteq> Inr ()"
      by (simp add: and_then_def perform_def Let_def)
    moreover from Some have "\<not> (\<forall>n<length (c # cs). raises C (calls_' s @ take (Suc n) (c # cs)) = None)"
      by (auto intro: exI [of _ 0])
    ultimately show ?thesis by blast
  next
    case None
    then have eq: "perform_all C (c # cs) s = perform_all C cs (s\<lparr>calls_' := calls_' s @ [c]\<rparr>)"
      by (simp add: and_then_def perform_def Let_def)
    have "(\<forall>n<length (c # cs). raises C (calls_' s @ take (Suc n) (c # cs)) = None) =
          (\<forall>n<length cs. raises C (calls_' s @ c # take (Suc n) cs) = None)"
      using None by (auto simp: less_Suc_eq_0_disj)
    with Cons.IH [of "s\<lparr>calls_' := calls_' s @ [c]\<rparr>"] eq show ?thesis by simp
  qed
qed

lemma visit_layers_perform_all:
  "visit_layers C frames s = perform_all C (concat (map (layer_calls s) frames)) s"
proof (induction frames arbitrary: s)
  case Nil
  then show ?case by simp
next
  case (Cons frame frames)
  have cong: "\<And>h. layer_calls (s\<lparr>calls_' := h\<rparr>) = layer_calls s"
    by (rule layer_calls_cong) simp
  show ?case
    by (simp add: Cons.IH cong and_then_def perform_def Let_def layer_calls_def [of s frame]
        split: option.splits)
qed

lemma compose_snd:
  "snd (compose C frames fd s) = snd (perform_all C (tick_calls s frames fd) s)"
  by (auto simp: compose_def tick_calls_def perform_all_append visit_layers_perform_all
      and_then_def Let_def split: prod.splits sum.splits)

lemma compose_fst:
  "(\<exists>fr. fst (compose C frames fd s) = Inr fr) =
   (fst (perform_all C (tick_calls s frames fd) s) = Inr ())"
  by (auto simp: compose_def tick_calls_def perform_all_append visit_layers_perform_all
      and_then_def Let_def split: prod.splits sum.splits)

lemma run_tasks_fields:
  "calls_' (foldl (\<lambda>s' t. run_task t s') s ts) = calls_' s \<and>
   this_' (foldl (\<lambda>s' t. run_task t s') s ts) = this_' s \<and>
   executor_' (foldl (\<lambda>s' t. run_task t s') s ts) = executor_' s"
  by (induction ts arbitrary: s) (auto simp: run_task_def split: task.splits option.splits)

lemma execute_pending_fields:
  "calls_' (execute_pending s) = calls_' s \<and> executor_' (execute_pending s) = []"
  by (simp add: execute_pending_def run_tasks_fields)

lemma execute_pending_idle: "executor_' s = [] \<Longrightarrow> execute_pending s = s"
  by (simp add: execute_pending_def)

lemma run_task_table:
  "blend_modes_' (run_task (set_blend_mode_task i v) s) = (blend_modes_' s)(i \<mapsto> v)"
  by (simp add: run_task_def split: option.splits)

lemma execute_pending_set_blend_mode:
  "blend_modes_' (execute_pending (set_blend_mode s i v)) = (blend_modes_' (execute_pending s))(i \<mapsto> v)"
  by (simp add: execute_pending_def set_blend_mode_def begin_invoke_def run_task_table)

lemma tick_table: "blend_modes_' (snd (tick C frames fd s)) = blend_modes_' s"
proof -
  obtain n where "snd (perform_all C (tick_calls s frames fd) s) =
      s\<lparr>calls_' := calls_' s @ take n (tick_calls s frames fd)\<rparr>"
    using perform_all_state [of "tick_calls s frames fd" C s] by blast
  then have "blend_modes_' (snd (compose C frames fd s)) = blend_modes_' s"
    by (simp add: compose_snd)
  then show ?thesis
    by (cases "compose C frames fd s") (auto simp: tick_def split: sum.splits)
qed


section \<open>The stream decoder: frame count, end of stream, foreign packets\<close>

text \<open>
  C1, as stated, fails: \<^verbatim>\<open>decode\<close> assigns \<open>file_frame_number_'\<close> the time stamp of the
  last decoded packet, it does not keep the highest. With a container estimate of 0 and
  two packets of this stream stamped 5 and 3, \<^verbatim>\<open>nb_frames\<close> is 5 after the first poll and
  3 after the second.
\<close>

theorem nb_frames_shrinks:
  "nb_frames (run always_decodes (impl_open 0 plain_ctx 0 720 576 True)
         [Push (Some (pkt_at 5)), Push (Some (pkt_at 3)), Poll]) = 5 \<and>
   nb_frames (run always_decodes (impl_open 0 plain_ctx 0 720 576 True)
         [Push (Some (pkt_at 5)), Push (Some (pkt_at 3)), Poll, Poll]) = 3"
  by (simp add: run_def step_def push_def poll_def decode_def impl_open_def pkt_at_def
      plain_ctx_def always_decodes_def nb_frames_def Let_def)

text \<open>
  C1, amended: over every history of \<^verbatim>\<open>push\<close> and \<^verbatim>\<open>poll\<close> calls \<^verbatim>\<open>nb_frames\<close> never
  drops below the container's estimate; and it is non-decreasing from any point of a
  history to any later one provided the packets the history decodes into pictures are
  decoded in non-decreasing order of time stamp (its low 32 bits), starting from the
  current frame number. Packets that are queued and never polled, or that give no
  picture, do not matter; a picture drained at the end of the stream counts with the
  marker's time stamp, which is the one \<^verbatim>\<open>decode\<close> records for it.
\<close>

theorem nb_frames_monotone_if_decoded_ordered:
  "nb_frames_' s \<le> nb_frames (run L s (xs @ ys)) \<and>
   (sorted (file_frame_number_' s # decoded_stamps L s (xs @ ys)) \<longrightarrow>
      nb_frames (run L s xs) \<le> nb_frames (run L s (xs @ ys)))"
proof (intro conjI impI)
  show "nb_frames_' s \<le> nb_frames (run L s (xs @ ys))"
    by (simp add: nb_frames_def run_fields)
next
  assume h: "sorted (file_frame_number_' s # decoded_stamps L s (xs @ ys))"
  then have "sorted ((file_frame_number_' s # decoded_stamps L s xs) @ decoded_stamps L (run L s xs) ys)"
    by (simp add: decoded_append)
  then have "last (file_frame_number_' s # decoded_stamps L s xs) \<le>
             last ((file_frame_number_' s # decoded_stamps L s xs) @ decoded_stamps L (run L s xs) ys)"
    by (rule sorted_last_prefix) simp
  then have "file_frame_number_' (run L s xs) \<le> file_frame_number_' (run L s (xs @ ys))"
    by (simp add: run_stamped decoded_append)
  then show "nb_frames (run L s xs) \<le> nb_frames (run L s (xs @ ys))"
    by (simp add: nb_frames_def run_fields max.coboundedI2)
qed

theorem nb_frames_monotone_if_decoded_ordered_witness:
  "sorted (file_frame_number_' scenario_ctx #
           decoded_stamps always_decodes scenario_ctx
             ([Push (Some (pkt_at 1)), Push (Some (pkt_at 2)), Push (Some (pkt_at 3)),
               Push (Some marker), Poll, Poll] @ [Poll, Poll, Poll])) \<and>
   nb_frames (run always_decodes scenario_ctx
                [Push (Some (pkt_at 1)), Push (Some (pkt_at 2)), Push (Some (pkt_at 3)),
                 Push (Some marker), Poll, Poll]) \<le>
   nb_frames (run always_decodes scenario_ctx
                ([Push (Some (pkt_at 1)), Push (Some (pkt_at 2)), Push (Some (pkt_at 3)),
                  Push (Some marker), Poll, Poll] @ [Poll, Poll, Poll])) \<and>
   nb_frames (run always_decodes scenario_ctx
                ([Push (Some (pkt_at 1)), Push (Some (pkt_at 2)), Push (Some (pkt_at 3)),
                  Push (Some marker), Poll, Poll] @ [Poll, Poll, Poll])) = 3"
proof -
  have h: "sorted (file_frame_number_' scenario_ctx #
           decoded_stamps always_decodes scenario_ctx
             ([Push (Some (pkt_at 1)), Push (Some (pkt_at 2)), Push (Some (pkt_at 3)),
               Push (Some marker), Poll, Poll] @ [Poll, Poll, Poll]))"
    by (simp only: append_Cons append_Nil scenario_decoded scenario_start) simp
  have v: "nb_frames (run always_decodes scenario_ctx
                ([Push (Some (pkt_at 1)), Push (Some (pkt_at 2)), Push (Some (pkt_at 3)),
                  Push (Some marker), Poll, Poll] @ [Poll, Poll, Poll])) = 3"
    by (simp add: scenario_ctx_def run_def step_def push_def poll_def decode_def impl_open_def
        pkt_at_def marker_def plain_ctx_def always_decodes_def nb_frames_def
        CODEC_CAP_DELAY_def Let_def)
  from nb_frames_monotone_if_decoded_ordered
         [of scenario_ctx always_decodes
             "[Push (Some (pkt_at 1)), Push (Some (pkt_at 2)), Push (Some (pkt_at 3)),
               Push (Some marker), Poll, Poll]" "[Poll, Poll, Poll]"] h v
  show ?thesis by blast
qed

text \<open>
  C2: with a codec context and the end-of-stream marker \<open>m\<close> at the front of the queue.
  If the codec declares \<^verbatim>\<open>CODEC_CAP_DELAY\<close> and the decode pass on the marker yields a
  picture, \<^verbatim>\<open>poll\<close> returns exactly what that pass returned and the marker stays at the
  front. If the codec declares it and the pass yields nothing, or if the codec does not
  declare it (then no pass is made: the decoder is otherwise untouched), \<^verbatim>\<open>poll\<close> pops
  the marker, flushes the codec's buffers and returns the flush frame.
\<close>

theorem poll_at_end_of_stream_marker:
  assumes "codec_context_' s = Some ctx" and "packets_' s = m # rest" and "data m = None"
  shows
    "(capabilities ctx AND CODEC_CAP_DELAY \<noteq> 0 \<and> fst (decode L s m) = Inr (video f) \<longrightarrow>
        poll L s = decode L s m \<and> packets_' (snd (poll L s)) = m # rest) \<and>
     (capabilities ctx AND CODEC_CAP_DELAY \<noteq> 0 \<and> fst (decode L s m) = Inr nullptr \<longrightarrow>
        poll L s =
          (Inr flush_video,
           (snd (decode L s m))\<lparr>packets_' := rest,
              codec_context_' :=
                map_option (avcodec_flush_buffers L) (codec_context_' (snd (decode L s m)))\<rparr>)) \<and>
     (capabilities ctx AND CODEC_CAP_DELAY = 0 \<longrightarrow>
        poll L s =
          (Inr flush_video,
           s\<lparr>packets_' := rest, codec_context_' := Some (avcodec_flush_buffers L ctx)\<rparr>))"
proof -
  obtain r s1 where d: "decode L s m = (r, s1)"
    by (cases "decode L s m")
  with decode_fields [of L s m] have p: "packets_' s1 = packets_' s"
    by simp
  from assms d p show ?thesis
    by (simp add: poll_def)
qed

theorem poll_at_end_of_stream_marker_witness:
  "fst (poll always_decodes (drain_state delay_ctx)) =
     Inr (video \<lparr>interlaced_frame = 0, top_field_first = 0, repeat_pict = 0, frame_pts = 0\<rparr>) \<and>
   packets_' (snd (poll always_decodes (drain_state delay_ctx))) = [marker] \<and>
   fst (poll never_decodes (drain_state delay_ctx)) = Inr flush_video \<and>
   packets_' (snd (poll never_decodes (drain_state delay_ctx))) = [] \<and>
   fst (poll always_decodes (drain_state plain_ctx)) = Inr flush_video \<and>
   packets_' (snd (poll always_decodes (drain_state plain_ctx))) = []"
proof -
  have d1: "fst (decode always_decodes (drain_state delay_ctx) marker) =
      Inr (video \<lparr>interlaced_frame = 0, top_field_first = 0, repeat_pict = 0, frame_pts = 0\<rparr>)"
    by (simp add: decode_def drain_state_def impl_open_def always_decodes_def marker_def Let_def)
  have d2: "fst (decode never_decodes (drain_state delay_ctx) marker) = Inr nullptr"
    by (simp add: decode_def drain_state_def impl_open_def never_decodes_def marker_def Let_def)
  have c1: "capabilities delay_ctx AND CODEC_CAP_DELAY \<noteq> 0"
    by (simp add: delay_ctx_def CODEC_CAP_DELAY_def)
  have c2: "capabilities plain_ctx AND CODEC_CAP_DELAY = 0"
    by (simp add: plain_ctx_def CODEC_CAP_DELAY_def)
  have q: "\<And>ctx. codec_context_' (drain_state ctx) = Some ctx"
    "\<And>ctx. packets_' (drain_state ctx) = marker # []" "data marker = None"
    by (simp_all add: drain_state_def impl_open_def marker_def)
  from poll_at_end_of_stream_marker [OF q(1) q(2) q(3), of delay_ctx always_decodes
         "\<lparr>interlaced_frame = 0, top_field_first = 0, repeat_pict = 0, frame_pts = 0\<rparr>"]
       poll_at_end_of_stream_marker [OF q(1) q(2) q(3), of delay_ctx never_decodes]
       poll_at_end_of_stream_marker [OF q(1) q(2) q(3), of plain_ctx always_decodes]
       d1 d2 c1 c2
  show ?thesis by (simp add: decode_fields q)
qed

text \<open>
  C4: \<^verbatim>\<open>push\<close> enqueues a packet exactly when it is not a packet of another stream with a
  payload, and drops such a packet without any other effect. Hence, in every history that
  starts with no such packet queued (as both constructors do), none is ever queued, and
  every picture \<^verbatim>\<open>poll\<close> returns is the result of \<^verbatim>\<open>decode\<close> on the front packet, which
  is of this decoder's stream or carries no payload (the marker, when the codec drains).
\<close>

theorem foreign_packets_never_decoded:
  "((packets_' (push s (Some p)) = packets_' s @ [p]) = (\<not> foreign (index_' s) p)) \<and>
   (foreign (index_' s) p \<longrightarrow> push s (Some p) = s) \<and>
   (own_stream_queue s \<longrightarrow> own_stream_queue (run L s xs)) \<and>
   (own_stream_queue s \<and> fst (poll L (run L s xs)) = Inr (video f) \<longrightarrow>
      (\<exists>pkt rest. packets_' (run L s xs) = pkt # rest \<and> \<not> foreign (index_' s) pkt \<and>
         fst (decode L (run L s xs) pkt) = Inr (video f)))"
proof (intro conjI impI)
  show "(packets_' (push s (Some p)) = packets_' s @ [p]) = (\<not> foreign (index_' s) p)"
    by (simp add: push_def foreign_def)
  show "push s (Some p) = s" if "foreign (index_' s) p"
    using that by (simp add: push_def foreign_def)
  show "own_stream_queue (run L s xs)" if "own_stream_queue s"
    using that by (rule run_own_stream_queue)
next
  assume h: "own_stream_queue s \<and> fst (poll L (run L s xs)) = Inr (video f)"
  then have inv: "own_stream_queue (run L s xs)"
    by (simp add: run_own_stream_queue)
  from h poll_video_source [of L "run L s xs" f]
  obtain pkt rest where q: "packets_' (run L s xs) = pkt # rest"
    and d: "fst (decode L (run L s xs) pkt) = Inr (video f)"
    by blast
  from inv q have "\<not> foreign (index_' s) pkt"
    by (simp add: own_stream_queue_def run_fields)
  with q d show "\<exists>pkt rest. packets_' (run L s xs) = pkt # rest \<and> \<not> foreign (index_' s) pkt \<and>
         fst (decode L (run L s xs) pkt) = Inr (video f)"
    by blast
qed

theorem foreign_packets_never_decoded_witness:
  "foreign (index_' (impl_open 0 plain_ctx 0 720 576 True))
     \<lparr>stream_index = 1, data = Some [], pts = 9\<rparr> \<and>
   push (impl_open 0 plain_ctx 0 720 576 True) (Some \<lparr>stream_index = 1, data = Some [], pts = 9\<rparr>) =
     impl_open 0 plain_ctx 0 720 576 True \<and>
   own_stream_queue (impl_open 0 plain_ctx 0 720 576 True) \<and>
   own_stream_queue (run always_decodes (impl_open 0 plain_ctx 0 720 576 True)
     [Push (Some \<lparr>stream_index = 1, data = Some [], pts = 9\<rparr>), Push (Some (pkt_at 7))]) \<and>
   fst (poll always_decodes (run always_decodes (impl_open 0 plain_ctx 0 720 576 True)
     [Push (Some \<lparr>stream_index = 1, data = Some [], pts = 9\<rparr>), Push (Some (pkt_at 7))])) =
     Inr (video \<lparr>interlaced_frame = 0, top_field_first = 0, repeat_pict = 0, frame_pts = 7\<rparr>) \<and>
   (\<exists>pkt rest.
      packets_' (run always_decodes (impl_open 0 plain_ctx 0 720 576 True)
        [Push (Some \<lparr>stream_index = 1, data = Some [], pts = 9\<rparr>), Push (Some (pkt_at 7))]) = pkt # rest \<and>
      \<not> foreign (index_' (impl_open 0 plain_ctx 0 720 576 True)) pkt \<and>
      fst (decode always_decodes (run always_decodes (impl_open 0 plain_ctx 0 720 576 True)
        [Push (Some \<lparr>stream_index = 1, data = Some [], pts = 9\<rparr>), Push (Some (pkt_at 7))]) pkt) =
        Inr (video \<lparr>interlaced_frame = 0, top_field_first = 0, repeat_pict = 0, frame_pts = 7\<rparr>))"
proof -
  let ?s = "impl_open 0 plain_ctx 0 720 576 True"
  let ?p = "\<lparr>stream_index = 1, data = Some [], pts = 9\<rparr>"
  let ?xs = "[Push (Some ?p), Push (Some (pkt_at 7))]"
  let ?f = "\<lparr>interlaced_frame = 0, top_field_first = 0, repeat_pict = 0, frame_pts = 7\<rparr>"
  have a: "foreign (index_' ?s) ?p"
    by (simp add: foreign_def impl_open_def)
  have b: "own_stream_queue ?s"
    by (simp add: own_stream_queue_def impl_open_def)
  have c: "fst (poll always_decodes (run always_decodes ?s ?xs)) = Inr (video ?f)"
    by (simp add: run_def step_def push_def poll_def decode_def impl_open_def pkt_at_def
      plain_ctx_def always_decodes_def Let_def)
  from foreign_packets_never_decoded [of ?s ?p always_decodes ?xs ?f] a b c
  show ?thesis by simp
qed

section \<open>Pixel formats and the converting decoder: plane counts, the DV correction\<close>

text \<open>
  C5: the descriptor has one plane for the four packed formats, three for \<open>ycbcr\<close> and
  four for \<open>ycbcra\<close>, each tagged with the canonical format, and it is the empty
  descriptor tagged \<open>invalid\<close> for every other native format, whatever the width and
  height. For the planar formats the chroma line size libavcodec reports must not be zero
  (the source divides by it); for a positive width it is not.
\<close>

theorem plane_count_by_format:
  "(get_pixel_format fmt \<in> {bgra, argb, rgba, abgr} \<longrightarrow>
      (\<exists>d. get_pixel_format_desc fill fmt w h = Inr d \<and> pix_fmt d = get_pixel_format fmt \<and>
           length (planes d) = 1)) \<and>
   (get_pixel_format fmt = ycbcr \<and> pict_linesize (fill fmt w h) 1 \<noteq> 0 \<longrightarrow>
      (\<exists>d. get_pixel_format_desc fill fmt w h = Inr d \<and> pix_fmt d = ycbcr \<and>
           length (planes d) = 3)) \<and>
   (get_pixel_format fmt = ycbcra \<and> pict_linesize (fill fmt w h) 1 \<noteq> 0 \<longrightarrow>
      (\<exists>d. get_pixel_format_desc fill fmt w h = Inr d \<and> pix_fmt d = ycbcra \<and>
           length (planes d) = 4)) \<and>
   (get_pixel_format fmt = invalid \<longrightarrow>
      get_pixel_format_desc fill fmt w h = Inr \<lparr>pix_fmt = invalid, planes = []\<rparr>)"
  by (auto simp: get_pixel_format_desc_def Let_def)

theorem plane_count_by_format_witness:
  "(\<exists>d. get_pixel_format_desc layout_packed PIX_FMT_BGRA 720 576 = Inr d \<and> pix_fmt d = bgra \<and>
        length (planes d) = 1) \<and>
   (\<exists>d. get_pixel_format_desc layout420 PIX_FMT_YUV420P 720 576 = Inr d \<and> pix_fmt d = ycbcr \<and>
        length (planes d) = 3) \<and>
   (\<exists>d. get_pixel_format_desc layout420 PIX_FMT_YUVA420P 720 576 = Inr d \<and> pix_fmt d = ycbcra \<and>
        length (planes d) = 4) \<and>
   get_pixel_format_desc layout420 (PIX_FMT_other 2) 720 576 = Inr \<lparr>pix_fmt = invalid, planes = []\<rparr>"
proof -
  have l: "pict_linesize (layout420 fmt 720 576) 1 \<noteq> 0" for fmt
    by (simp add: layout420_def)
  from plane_count_by_format [of PIX_FMT_BGRA layout_packed 720 576]
       plane_count_by_format [of PIX_FMT_YUV420P layout420 720 576]
       plane_count_by_format [of PIX_FMT_YUVA420P layout420 720 576]
       plane_count_by_format [of "PIX_FMT_other 2" layout420 720 576] l
  show ?thesis by simp
qed

lemma copy_planes_transform:
  "image_transform (copy_planes desc decoded_frame memory write) = image_transform write"
proof -
  have "image_transform (foldl (\<lambda>w n.
              w\<lparr>image_data := (image_data w)
                   [n := copy_plane (planes desc ! n) (pict_data decoded_frame n)
                           (pict_linesize decoded_frame n) memory (image_data w ! n)]\<rparr>)
       wf ns) = image_transform wf" for wf ns
    by (induction ns arbitrary: wf) simp_all
  then show ?thesis by (simp add: copy_planes_def)
qed

lemma execute_returned:
  assumes "avcodec_decode_video E (codec_context_i s) video_packet = (r, ff, pic, mem, ctx')"
    and "fst (execute E s video_packet) = Inr w"
  shows "codec_context_i (snd (execute E s video_packet)) = ctx' \<and>
         image_transform w =
           image_transform (create_frame E (frame_factory_' s) (desc_' s)) @
           (if codec_id ctx' = CODEC_ID_DVVIDEO \<and>
               mode (get_video_format_desc E (frame_factory_' s)) = upper
            then [set_image_translation (fp_literal 0)
                    (fp_div (fp_literal 1) (fp_of_int (height_i s)))]
            else [])"
proof (cases "r < 0")
  case True
  with assms show ?thesis by (simp add: execute_def)
next
  case False
  show ?thesis
  proof (cases "sws_context_' s")
    case None
    with False assms show ?thesis
      by (auto simp: execute_def Let_def copy_planes_transform)
  next
    case (Some sws)
    with False assms show ?thesis
      by (auto simp: execute_def Let_def)
  qed
qed

text \<open>
  C8: when \<^verbatim>\<open>execute\<close> returns a frame, the frame's transform is the one the factory
  created it with, followed by one call \<^verbatim>\<open>set_image_translation(0, 1.0 / height_)\<close> if
  the codec is \<^verbatim>\<open>CODEC_ID_DVVIDEO\<close> and the output mode is \<open>upper\<close>, and by nothing
  otherwise: the transform is touched exactly in that case.
\<close>

theorem translation_iff_dv_and_upper:
  "fst (execute E s video_packet) = Inr w \<longrightarrow>
     image_transform w =
       image_transform (create_frame E (frame_factory_' s) (desc_' s)) @
       (if codec_id (codec_context_i (snd (execute E s video_packet))) = CODEC_ID_DVVIDEO \<and>
           mode (get_video_format_desc E (frame_factory_' s)) = upper
        then [set_image_translation (fp_literal 0) (fp_div (fp_literal 1) (fp_of_int (height_i s)))]
        else []) \<and>
     ((image_transform w \<noteq> image_transform (create_frame E (frame_factory_' s) (desc_' s))) =
      (codec_id (codec_context_i (snd (execute E s video_packet))) = CODEC_ID_DVVIDEO \<and>
       mode (get_video_format_desc E (frame_factory_' s)) = upper))"
proof
  assume w: "fst (execute E s video_packet) = Inr w"
  obtain r ff pic mem ctx'
    where d: "avcodec_decode_video E (codec_context_i s) video_packet = (r, ff, pic, mem, ctx')"
    by (metis prod_cases5)
  from execute_returned [OF d w]
  show "image_transform w =
       image_transform (create_frame E (frame_factory_' s) (desc_' s)) @
       (if codec_id (codec_context_i (snd (execute E s video_packet))) = CODEC_ID_DVVIDEO \<and>
           mode (get_video_format_desc E (frame_factory_' s)) = upper
        then [set_image_translation (fp_literal 0) (fp_div (fp_literal 1) (fp_of_int (height_i s)))]
        else []) \<and>
     ((image_transform w \<noteq> image_transform (create_frame E (frame_factory_' s) (desc_' s))) =
      (codec_id (codec_context_i (snd (execute E s video_packet))) = CODEC_ID_DVVIDEO \<and>
       mode (get_video_format_desc E (frame_factory_' s)) = upper))"
    by simp
qed

theorem translation_iff_dv_and_upper_witness:
  "(\<exists>w. fst (execute test_env (test_decoder CODEC_ID_DVVIDEO pal) []) = Inr w \<and>
        image_transform w =
          [set_image_translation (fp_literal 0) (fp_div (fp_literal 1) (fp_of_int 576))]) \<and>
   (\<exists>w. fst (execute test_env (test_decoder (CODEC_ID_other 0) pal) []) = Inr w \<and>
        image_transform w = []) \<and>
   (\<exists>w. fst (execute test_env (test_decoder CODEC_ID_DVVIDEO progressive_720) []) = Inr w \<and>
        image_transform w = [])"
proof -
  have ex: "\<exists>w. fst (execute test_env (test_decoder cid fd) []) = Inr w" for cid fd
    by (simp add: execute_def test_env_def Let_def)
  have st: "codec_id (codec_context_i (snd (execute test_env (test_decoder cid fd) []))) = cid"
    for cid fd
    by (simp add: execute_def test_env_def test_decoder_def Let_def)
  have fr: "image_transform (create_frame test_env (frame_factory_' (test_decoder cid fd))
              (desc_' (test_decoder cid fd))) = []"
       "get_video_format_desc test_env (frame_factory_' (test_decoder cid fd)) = fd"
       "height_i (test_decoder cid fd) = 576" for cid fd
    by (simp_all add: test_env_def test_decoder_def)
  obtain w1 where w1: "fst (execute test_env (test_decoder CODEC_ID_DVVIDEO pal) []) = Inr w1"
    using ex by blast
  obtain w2 where w2: "fst (execute test_env (test_decoder (CODEC_ID_other 0) pal) []) = Inr w2"
    using ex by blast
  obtain w3 where w3: "fst (execute test_env (test_decoder CODEC_ID_DVVIDEO progressive_720) []) = Inr w3"
    using ex by blast
  from translation_iff_dv_and_upper [of test_env "test_decoder CODEC_ID_DVVIDEO pal" "[]" w1]
       translation_iff_dv_and_upper [of test_env "test_decoder (CODEC_ID_other 0) pal" "[]" w2]
       translation_iff_dv_and_upper [of test_env "test_decoder CODEC_ID_DVVIDEO progressive_720" "[]" w3]
       w1 w2 w3
  show ?thesis by (simp add: st fr pal_def progressive_720_def)
qed

section \<open>The mixer: immutable frames, failed ticks, blend modes\<close>

text \<open>
  C9: on every constructed mixed frame the two non-const accessors throw
  \<^verbatim>\<open>invalid_operation\<close>, whatever the index, and leave the frame as it was: its audio,
  image payload, tag and format descriptor are those it was constructed with.
\<close>

theorem mixed_frame_is_immutable:
  "fst (image_data_nonconst (make_mixed_frame tag img aud format_desc) index) =
     Inl (invalid_operation []) \<and>
   snd (image_data_nonconst (make_mixed_frame tag img aud format_desc) index) =
     make_mixed_frame tag img aud format_desc \<and>
   fst (audio_data_nonconst (make_mixed_frame tag img aud format_desc)) =
     Inl (invalid_operation []) \<and>
   snd (audio_data_nonconst (make_mixed_frame tag img aud format_desc)) =
     make_mixed_frame tag img aud format_desc \<and>
   audio_data_const (make_mixed_frame tag img aud format_desc) = aud \<and>
   image_data_const (make_mixed_frame tag img aud format_desc) index = img \<and>
   tag_' (make_mixed_frame tag img aud format_desc) = tag \<and>
   video_desc_' (make_mixed_frame tag img aud format_desc) = format_desc"
  by (simp add: image_data_nonconst_def audio_data_nonconst_def audio_data_const_def
      image_data_const_def make_mixed_frame_def Let_def)

text \<open>
  C3: \<^verbatim>\<open>operator()\<close> always returns a frame, never an exception; and when the \<^verbatim>\<open>try\<close>
  block throws, which it does as soon as one of the calls of the tick (a layer's visit,
  the image or audio mixer's result, the allocation of the frame) throws, the frame
  returned is the empty frame.
\<close>

theorem composition_failure_gives_empty_frame:
  "(\<exists>fr. fst (invoke C s frames fd) = Inr fr) \<and>
   (fst (compose C frames fd (execute_pending s)) = Inl e \<longrightarrow>
      fst (invoke C s frames fd) = Inr data_frame_empty) \<and>
   ((\<exists>n<length (tick_calls (execute_pending s) frames fd).
        raises C (calls_' s @ take (Suc n) (tick_calls (execute_pending s) frames fd)) \<noteq> None) \<longrightarrow>
      fst (invoke C s frames fd) = Inr data_frame_empty)"
proof (intro conjI impI)
  show "\<exists>fr. fst (invoke C s frames fd) = Inr fr"
    by (cases "compose C frames fd (execute_pending s)")
      (auto simp: invoke_def executor_invoke_def tick_def split: sum.splits)
  show "fst (invoke C s frames fd) = Inr data_frame_empty"
    if "fst (compose C frames fd (execute_pending s)) = Inl e"
    using that by (cases "compose C frames fd (execute_pending s)")
      (auto simp: invoke_def executor_invoke_def tick_def split: sum.splits)
next
  let ?t = "execute_pending s"
  assume "\<exists>n<length (tick_calls ?t frames fd).
        raises C (calls_' s @ take (Suc n) (tick_calls ?t frames fd)) \<noteq> None"
  then have "fst (perform_all C (tick_calls ?t frames fd) ?t) \<noteq> Inr ()"
    by (simp add: perform_all_ok execute_pending_fields)
  then have "\<not> (\<exists>fr. fst (compose C frames fd ?t) = Inr fr)"
    by (simp add: compose_fst)
  then obtain e' where "fst (compose C frames fd ?t) = Inl e'"
    by (cases "fst (compose C frames fd ?t)") auto
  then show "fst (invoke C s frames fd) = Inr data_frame_empty"
    by (cases "compose C frames fd ?t")
      (auto simp: invoke_def executor_invoke_def tick_def split: sum.splits)
qed

theorem composition_failure_gives_empty_frame_witness:
  "fst (compose image_visit_throws [(0, 7)] pal (execute_pending mixer0)) = Inl ''gl error'' \<and>
   (\<exists>n<length (tick_calls (execute_pending mixer0) [(0, 7)] pal).
      raises image_visit_throws
        (calls_' mixer0 @ take (Suc n) (tick_calls (execute_pending mixer0) [(0, 7)] pal)) \<noteq> None) \<and>
   fst (invoke image_visit_throws mixer0 [(0, 7)] pal) = Inr data_frame_empty"
proof -
  have a: "fst (compose image_visit_throws [(0, 7)] pal (execute_pending mixer0)) = Inl ''gl error''"
    by (simp add: compose_def and_then_def perform_def execute_pending_def mixer0_def
        image_visit_throws_def blend_of_def Let_def)
  have "raises image_visit_throws
        (calls_' mixer0 @ take (Suc 2) (tick_calls (execute_pending mixer0) [(0, 7)] pal)) \<noteq> None"
    by (simp add: tick_calls_def layer_calls_def image_visit_throws_def mixer0_def)
  then have b: "\<exists>n<length (tick_calls (execute_pending mixer0) [(0, 7)] pal).
      raises image_visit_throws
        (calls_' mixer0 @ take (Suc n) (tick_calls (execute_pending mixer0) [(0, 7)] pal)) \<noteq> None"
    by (intro exI [of _ 2]) (simp add: tick_calls_def layer_calls_def)
  from composition_failure_gives_empty_frame
         [of image_visit_throws mixer0 "[(0, 7)]" pal "''gl error''"] a b
  show ?thesis by blast
qed



text \<open>
  C10: the closure of \<^verbatim>\<open>operator()\<close> leaves the blend-mode table as it finds it, whether
  it returns a mixed frame or the empty one. What the table holds after the call is what
  the executor's queue made of it before the closure ran: nothing if no
  \<^verbatim>\<open>set_blend_mode\<close> was pending, and for a pending \<^verbatim>\<open>set_blend_mode(i, v)\<close> the table
  with \<open>v\<close> at \<open>i\<close>.
\<close>

theorem invoke_keeps_blend_modes:
  "blend_modes_' (snd (tick C frames fd s)) = blend_modes_' s \<and>
   blend_modes_' (snd (invoke C s frames fd)) = blend_modes_' (execute_pending s) \<and>
   (executor_' s = [] \<longrightarrow> blend_modes_' (snd (invoke C s frames fd)) = blend_modes_' s) \<and>
   blend_modes_' (execute_pending (set_blend_mode s i v)) = (blend_modes_' (execute_pending s))(i \<mapsto> v)"
  by (simp add: tick_table invoke_def executor_invoke_def execute_pending_idle
      execute_pending_set_blend_mode)

theorem invoke_keeps_blend_modes_witness:
  "executor_' (execute_pending (set_blend_mode mixer0 3 (blend_mode_other 2))) = [] \<and>
   blend_modes_' (snd (invoke image_visit_throws
       (execute_pending (set_blend_mode mixer0 3 (blend_mode_other 2))) [(3, 7)] pal)) 3 =
     Some (blend_mode_other 2) \<and>
   blend_modes_' (snd (invoke quiet
       (execute_pending (set_blend_mode mixer0 3 (blend_mode_other 2))) [(3, 7)] pal)) =
     blend_modes_' (execute_pending (set_blend_mode mixer0 3 (blend_mode_other 2)))"
proof -
  let ?s = "execute_pending (set_blend_mode mixer0 3 (blend_mode_other 2))"
  have a: "executor_' ?s = []"
    by (simp add: execute_pending_fields)
  have b: "blend_modes_' ?s 3 = Some (blend_mode_other 2)"
    by (simp add: execute_pending_set_blend_mode)
  from invoke_keeps_blend_modes [of image_visit_throws "[(3, 7)]" pal ?s 0 normal] a
  have c: "blend_modes_' (snd (invoke image_visit_throws ?s [(3, 7)] pal)) = blend_modes_' ?s"
    by blast
  from invoke_keeps_blend_modes [of quiet "[(3, 7)]" pal ?s 0 normal] a
  have d: "blend_modes_' (snd (invoke quiet ?s [(3, 7)] pal)) = blend_modes_' ?s"
    by blast
  from a b c d show ?thesis by simp
qed

end
